theory Spec2Isabelle
  imports Complex_Main "HOL-Library.Sublist"
begin

section \<open>A PDF rasteriser: \<open>app.py\<close>\<close>

text \<open>
  The program opens a PDF, renders every page to a bitmap, encodes the bitmap as JPEG and
  places the image, centred and with its aspect ratio kept, on a fresh A4 page of a new
  document, which it saves next to the input.

  Conventions of the embedding.
  \<^item> Python's \<open>int\<close> is \<^typ>\<open>int\<close>. Python's \<open>float\<close> is a double: a real number that
    rounding to 53 significant bits leaves unchanged. The geometry helper is given twice:
    \<open>fit_rect_keep_aspect\<close> are its lines in exact arithmetic over \<^typ>\<open>real\<close>, the reading of
    the properties stated over the reals or the rationals, and
    \<open>fit_rect_keep_aspect_double\<close> are the same lines as the interpreter runs them, every
    operation rounded to the nearest double. The orchestrator hands the rectangle on to
    \<open>insert_image\<close> and no property of it below depends on the rectangle's value; it is
    written with the exact helper.
  \<^item> A raised exception is the \<open>Inl\<close> branch of a sum; the exception classes the program
    raises itself are constructors of \<open>exn\<close>, an exception coming out of a library call is
    \<open>LibraryError\<close>.
  \<^item> PyMuPDF (\<open>fitz\<close>), Pillow and the file system are outside the program. Their
    behaviour is a parameter (\<open>env\<close>): each call may return or raise. The calls the
    program makes to them are logged in a trace, in call order, and the documents it
    saves are kept in a map from paths.
\<close>

subsection \<open>Paths (\<open>pathlib.Path\<close>)\<close>

text \<open>
  A path is its directory part and its final component, which holds no separator.
  \<open>suffix\<close>, \<open>stem\<close> and \<open>with_name\<close> follow \<open>pathlib\<close> (CPython up to 3.13): the suffix starts
  at the last dot of the name, unless that dot is the first or the last character of the
  name; the stem is the name without the suffix. Strings are lists of 8-bit characters and
  \<open>lower\<close> moves the ASCII capitals only; no other character lower-cases to one of
  \<open>.pdf\<close>.
\<close>

record path =
  parent :: "string list"
  name :: string

fun rfind_from :: "char \<Rightarrow> string \<Rightarrow> int \<Rightarrow> int \<Rightarrow> int" where
  "rfind_from c [] i found = found"
| "rfind_from c (x # xs) i found = rfind_from c xs (i + 1) (if x = c then i else found)"

definition rfind :: "char \<Rightarrow> string \<Rightarrow> int" where
  \<comment> \<open>\<open>str.rfind\<close>: the highest index of the character, or \<open>-1\<close>.\<close>
  "rfind c s = rfind_from c s 0 (- 1)"

definition suffix_of :: "string \<Rightarrow> string" where
  "suffix_of n =
     (let i = rfind (CHR ''.'') n
      in if 0 < i \<and> i < int (length n) - 1 then drop (nat i) n else [])"

definition stem_of :: "string \<Rightarrow> string" where
  "stem_of n =
     (let i = rfind (CHR ''.'') n
      in if 0 < i \<and> i < int (length n) - 1 then take (nat i) n else n)"

definition path_suffix :: "path \<Rightarrow> string" where
  "path_suffix p = suffix_of (name p)"

definition path_stem :: "path \<Rightarrow> string" where
  "path_stem p = stem_of (name p)"

definition lower_char :: "char \<Rightarrow> char" where
  \<comment> \<open>\<open>str.lower\<close> on one character: \<open>A\<close>..\<open>Z\<close> move to \<open>a\<close>..\<open>z\<close>.\<close>
  "lower_char c =
     (let k = (of_char c :: nat) in if 65 \<le> k \<and> k \<le> 90 then char_of (k + 32) else c)"

definition lower :: "string \<Rightarrow> string" where
  "lower s = map lower_char s"

subsection \<open>Exceptions\<close>

datatype exn =
    FileNotFoundError path  \<comment> \<open>message \<open>Input not found: \<close> followed by the path\<close>
  | ValueError string
  | RuntimeError string
  | ZeroDivisionError
  | OverflowError           \<comment> \<open>\<open>int too large to convert to float\<close>\<close>
  | LibraryError string     \<comment> \<open>raised inside a library call\<close>

definition with_name :: "path \<Rightarrow> string \<Rightarrow> exn + path" where
  \<comment> \<open>\<open>Path.with_name\<close> refuses a path whose own name is empty.\<close>
  "with_name p n =
     (if name p = [] then Inl (ValueError ''has an empty name'') else Inr (p\<lparr>name := n\<rparr>))"

subsection \<open>Geometry helper\<close>

record rect =
  x0 :: real
  y0 :: real
  x1 :: real
  y1 :: real

definition rect_width :: "rect \<Rightarrow> real" where
  "rect_width r = x1 r - x0 r"

definition rect_height :: "rect \<Rightarrow> real" where
  "rect_height r = y1 r - y0 r"

definition A4_WIDTH_PT :: real where
  "A4_WIDTH_PT = 595.2755905511812"

definition A4_HEIGHT_PT :: real where
  "A4_HEIGHT_PT = 841.8897637795277"

text \<open>
  Lines 19 to 24 of \<open>app.py\<close> in exact arithmetic: no operation rounds.
\<close>

definition fit_rect_keep_aspect :: "int \<Rightarrow> int \<Rightarrow> real \<Rightarrow> real \<Rightarrow> exn + rect" where
  \<comment> \<open>Python's \<open>/\<close> raises \<open>ZeroDivisionError\<close> on a zero divisor.\<close>
  "fit_rect_keep_aspect img_w img_h page_w page_h =
     (if img_w = 0 \<or> img_h = 0 then Inl ZeroDivisionError
      else
        let scale = min (page_w / of_int img_w) (page_h / of_int img_h);
            w = of_int img_w * scale;
            h = of_int img_h * scale;
            x = (page_w - w) / 2;
            y = (page_h - h) / 2
        in Inr \<lparr>x0 = x, y0 = y, x1 = x + w, y1 = y + h\<rparr>)"

subsection \<open>The geometry helper in double arithmetic\<close>

text \<open>
  \<open>rnd\<close> rounds a positive real to the nearest real with a significand of 53 bits, a tie
  going to the even significand: the argument is scaled by powers of two into
  \<open>[2^52, 2^53)\<close>, rounded to an integer there and scaled back. \<open>fl\<close> extends it by sign.
  There is no bound on the exponent, so \<open>fl\<close> is the rounding of IEEE 754 binary64
  (round to nearest, ties to even) wherever the rounded result is zero or a normal double;
  overflow to infinity and gradual underflow are outside it.
\<close>

definition round_half_even :: "real \<Rightarrow> int" where
  "round_half_even x =
     (let f = \<lfloor>x\<rfloor>; r = x - of_int f
      in if r < 1 / 2 then f else if 1 / 2 < r then f + 1 else if even f then f else f + 1)"

function rnd :: "real \<Rightarrow> real" where
  "rnd x =
     (if x \<le> 0 then 0
      else if x < 2 ^ 52 then rnd (2 * x) / 2
      else if 2 ^ 53 \<le> x then rnd (x / 2) * 2
      else of_int (round_half_even x))"
  by pat_completeness auto
termination
proof (relation "measure (\<lambda>x. nat \<bar>\<lfloor>log 2 x\<rfloor> - 52\<bar>)")
  show "wf (measure (\<lambda>x. nat \<bar>\<lfloor>log 2 x\<rfloor> - 52\<bar>))" by simp
next
  fix x :: real
  assume a: "\<not> x \<le> 0" "x < 2 ^ 52"
  then have "log 2 x < 52"
    using log_less_iff [of 2 x 52] by (simp add: powr_realpow)
  then have f: "\<lfloor>log 2 x\<rfloor> < 52" by (simp add: floor_less_iff)
  have "log 2 (2 * x) = 1 + log 2 x" using a by (simp add: log_mult)
  then have "\<lfloor>log 2 (2 * x)\<rfloor> = \<lfloor>log 2 x\<rfloor> + 1" by simp
  with f show "(2 * x, x) \<in> measure (\<lambda>x. nat \<bar>\<lfloor>log 2 x\<rfloor> - 52\<bar>)" by simp
next
  fix x :: real
  assume a: "\<not> x \<le> 0" "\<not> x < 2 ^ 52" "2 ^ 53 \<le> x"
  then have "53 \<le> log 2 x"
    using le_log_iff [of 2 x 53] by (simp add: powr_realpow)
  then have f: "53 \<le> \<lfloor>log 2 x\<rfloor>" by (simp add: le_floor_iff)
  have "log 2 (x / 2) = log 2 x - 1" using a by (simp add: log_divide)
  then have "\<lfloor>log 2 (x / 2)\<rfloor> = \<lfloor>log 2 x\<rfloor> - 1" by simp
  with f show "(x / 2, x) \<in> measure (\<lambda>x. nat \<bar>\<lfloor>log 2 x\<rfloor> - 52\<bar>)" by simp
qed

declare rnd.simps [simp del]

definition fl :: "real \<Rightarrow> real" where
  "fl x = (if 0 \<le> x then rnd x else - rnd (- x))"



subsection \<open>The libraries\<close>

type_synonym bytes = "nat list"

record pixmap =
  width :: int
  height :: int
  colorspace_n :: nat
  samples :: bytes

record pil_image =
  im_mode :: string
  im_size :: "int \<times> int"
  im_data :: bytes

text \<open>Pillow's \<open>Image\<close> module: \<open>Image.frombytes(mode, size, data)\<close> and
  \<open>img.save(buf, format="JPEG", quality=q, optimize=True)\<close> followed by \<open>buf.getvalue()\<close>.\<close>

record pillow =
  frombytes :: "string \<Rightarrow> int \<times> int \<Rightarrow> bytes \<Rightarrow> exn + pil_image"
  save_jpeg :: "pil_image \<Rightarrow> int \<Rightarrow> exn + bytes"

record 'pg document =
  needs_pass :: bool
  pages :: "'pg list"

record out_page =
  page_width :: real
  page_height :: real
  images :: "(rect \<times> bytes) list"

text \<open>
  The environment of one run. \<open>fitz_open\<close> is \<open>fitz.open(path)\<close>; \<open>fitz_open_empty\<close> is
  \<open>fitz.open()\<close>, \<open>None\<close> when it returns the empty document; \<open>get_pixmap\<close> takes the
  page, the zoom of \<open>Matrix(zoom, zoom)\<close> and whether the colour space is \<open>csGRAY\<close>
  (otherwise \<open>csRGB\<close>); \<open>get_image_data\<close> is the JPEG encoder of the pixmap at a
  quality; \<open>Image\<close> is the module-level name, \<open>None\<close> when the import of Pillow failed;
  \<open>doc_save\<close> is \<open>dst.save(out_path, deflate=True, clean=True, garbage=4)\<close>, \<open>None\<close> when
  it returns. A save that raises is taken to write nothing.
\<close>

record 'pg env =
  path_exists :: "path \<Rightarrow> bool"
  fitz_open :: "path \<Rightarrow> exn + 'pg document"
  fitz_open_empty :: "exn option"
  get_pixmap :: "'pg \<Rightarrow> real \<Rightarrow> bool \<Rightarrow> exn + pixmap"
  get_image_data :: "pixmap \<Rightarrow> int \<Rightarrow> exn + bytes"
  Image :: "pillow option"
  insert_image :: "rect \<Rightarrow> bytes \<Rightarrow> exn option"
  doc_save :: "path \<Rightarrow> out_page list \<Rightarrow> exn option"

datatype handle = Src | Dst

datatype event =
    Opened handle        \<comment> \<open>\<open>fitz.open\<close> returned a document\<close>
  | OpenFailed handle    \<comment> \<open>\<open>fitz.open\<close> raised\<close>
  | Closed handle        \<comment> \<open>\<open>close()\<close> was called on the document\<close>
  | GetPixmap nat        \<comment> \<open>\<open>get_pixmap\<close> was called on the page of this index\<close>
  | GetImageData         \<comment> \<open>the primary encoder was called\<close>
  | Frombytes            \<comment> \<open>\<open>Image.frombytes\<close> was called\<close>
  | ImageSave            \<comment> \<open>\<open>img.save\<close> was called\<close>
  | NewPage              \<comment> \<open>\<open>dst.new_page\<close> was called\<close>
  | InsertImage          \<comment> \<open>\<open>new_page.insert_image\<close> was called\<close>
  | Save path            \<comment> \<open>\<open>dst.save\<close> was called with this path\<close>

record state =
  trace :: "event list"
  files :: "path \<rightharpoonup> out_page list"

definition log :: "event \<Rightarrow> state \<Rightarrow> state" where
  "log e s = s\<lparr>trace := trace s @ [e]\<rparr>"

subsection \<open>Image encoder\<close>

definition encode_pixmap_to_jpeg ::
  "'pg env \<Rightarrow> pixmap \<Rightarrow> int \<Rightarrow> state \<Rightarrow> (exn + bytes) \<times> state" where
  "encode_pixmap_to_jpeg env pix quality s =
     (case get_image_data env pix quality of
        Inr data \<Rightarrow> (Inr data, log GetImageData s)
      | Inl _ \<Rightarrow>
          (case Image env of
             None \<Rightarrow>
               (Inl (RuntimeError
                  ''PyMuPDF get_image_data not available; install Pillow (`pip install Pillow`) for fallback.''),
                log GetImageData s)
           | Some pil \<Rightarrow>
               let mode = (if colorspace_n pix = 1 then ''L'' else ''RGB'')
               in (case frombytes pil mode (width pix, height pix) (samples pix) of
                     Inl e \<Rightarrow> (Inl e, log Frombytes (log GetImageData s))
                   | Inr img \<Rightarrow>
                       (case save_jpeg pil img quality of
                          Inl e \<Rightarrow> (Inl e, log ImageSave (log Frombytes (log GetImageData s)))
                        | Inr data \<Rightarrow>
                            (Inr data, log ImageSave (log Frombytes (log GetImageData s)))))))"

subsection \<open>Orchestrator\<close>

text \<open>
  The body of the \<open>for\<close> loop for the page of index \<open>i\<close>; \<open>dst\<close> is the list of pages of
  the destination document so far. \<open>load_page\<close> raises on an index outside the document.
\<close>

definition loop_body ::
  "'pg env \<Rightarrow> 'pg document \<Rightarrow> real \<Rightarrow> int \<Rightarrow> bool \<Rightarrow> real \<Rightarrow> real \<Rightarrow> nat \<Rightarrow>
     out_page list \<Rightarrow> state \<Rightarrow> (exn + out_page list) \<times> state" where
  "loop_body env src zoom quality grayscale page_w page_h i dst s =
     (if length (pages src) \<le> i then (Inl (LibraryError ''page not in document''), s)
      else
        case get_pixmap env (pages src ! i) zoom grayscale of
          Inl e \<Rightarrow> (Inl e, log (GetPixmap i) s)
        | Inr pix \<Rightarrow>
            (case encode_pixmap_to_jpeg env pix quality (log (GetPixmap i) s) of
               (Inl e, s1) \<Rightarrow> (Inl e, s1)
             | (Inr img_bytes, s1) \<Rightarrow>
                 (case fit_rect_keep_aspect (width pix) (height pix) page_w page_h of
                    Inl e \<Rightarrow> (Inl e, log NewPage s1)
                  | Inr rect \<Rightarrow>
                      (case insert_image env rect img_bytes of
                         Some e \<Rightarrow> (Inl e, log InsertImage (log NewPage s1))
                       | None \<Rightarrow>
                           (Inr (dst @ [\<lparr>page_width = page_w, page_height = page_h,
                                        images = [(rect, img_bytes)]\<rparr>]),
                            log InsertImage (log NewPage s1))))))"

text \<open>The \<open>for\<close> loop over \<open>range(len(src))\<close>: the first exception ends it.\<close>

fun for_pages ::
  "'pg env \<Rightarrow> 'pg document \<Rightarrow> real \<Rightarrow> int \<Rightarrow> bool \<Rightarrow> real \<Rightarrow> real \<Rightarrow> nat list \<Rightarrow>
     out_page list \<Rightarrow> state \<Rightarrow> (exn + out_page list) \<times> state" where
  "for_pages env src zoom quality grayscale page_w page_h [] dst s = (Inr dst, s)"
| "for_pages env src zoom quality grayscale page_w page_h (i # rest) dst s =
     (case loop_body env src zoom quality grayscale page_w page_h i dst s of
        (Inl e, s1) \<Rightarrow> (Inl e, s1)
      | (Inr dst1, s1) \<Rightarrow> for_pages env src zoom quality grayscale page_w page_h rest dst1 s1)"

text \<open>The suite of the \<open>try\<close> statement.\<close>

definition try_suite ::
  "'pg env \<Rightarrow> 'pg document \<Rightarrow> path \<Rightarrow> int \<Rightarrow> int \<Rightarrow> bool \<Rightarrow> bool \<Rightarrow> state \<Rightarrow>
     (exn + path) \<times> state" where
  "try_suite env src out_path dpi quality grayscale a4_portrait s =
     (if needs_pass src then (Inl (RuntimeError ''The input PDF is password-protected.''), s)
      else
        let page_w = (if a4_portrait then A4_WIDTH_PT else A4_HEIGHT_PT);
            page_h = (if a4_portrait then A4_HEIGHT_PT else A4_WIDTH_PT);
            zoom = of_int dpi / 72
        in (case for_pages env src zoom quality grayscale page_w page_h
                    [0 ..< length (pages src)] [] s of
              (Inl e, s1) \<Rightarrow> (Inl e, s1)
            | (Inr dst, s1) \<Rightarrow>
                (case doc_save env out_path dst of
                   Some e \<Rightarrow> (Inl e, log (Save out_path) s1)
                 | None \<Rightarrow>
                     (Inr out_path,
                      (log (Save out_path) s1)\<lparr>files := (files s1)(out_path \<mapsto> dst)\<rparr>))))"

definition output_path :: "path \<Rightarrow> exn + path" where
  \<comment> \<open>\<open>input_pdf.with_name(f"{input_pdf.stem} (01).pdf")\<close>\<close>
  "output_path input_pdf = with_name input_pdf (path_stem input_pdf @ '' (01).pdf'')"

definition rasterize_pdf_to_images_pdf ::
  "'pg env \<Rightarrow> path \<Rightarrow> int \<Rightarrow> int \<Rightarrow> bool \<Rightarrow> bool \<Rightarrow> state \<Rightarrow> (exn + path) \<times> state" where
  "rasterize_pdf_to_images_pdf env input_pdf dpi quality grayscale a4_portrait s =
     (if \<not> path_exists env input_pdf then (Inl (FileNotFoundError input_pdf), s)
      else if lower (path_suffix input_pdf) \<noteq> ''.pdf'' then
        (Inl (ValueError ''Input must be a .pdf file''), s)
      else
        case output_path input_pdf of
          Inl e \<Rightarrow> (Inl e, s)
        | Inr out_path \<Rightarrow>
            (case fitz_open env input_pdf of
               Inl e \<Rightarrow> (Inl e, log (OpenFailed Src) s)
             | Inr src \<Rightarrow>
                 (case fitz_open_empty env of
                    Some e \<Rightarrow> (Inl e, log (OpenFailed Dst) (log (Opened Src) s))
                  | None \<Rightarrow>
                      (case try_suite env src out_path dpi quality grayscale a4_portrait
                              (log (Opened Dst) (log (Opened Src) s)) of
                         (r, s1) \<Rightarrow> (r, log (Closed Dst) (log (Closed Src) s1))))))"

subsection \<open>What the specification speaks of\<close>

text \<open>
  The page that the pipeline makes of one source page when every step returns: the page is
  rendered, the bitmap encoded, the placement computed and the image embedded. \<open>None\<close> when
  one of the steps raises. The encoder's result does not depend on the state it is run in.
\<close>

definition expected_page ::
  "'pg env \<Rightarrow> real \<Rightarrow> int \<Rightarrow> bool \<Rightarrow> real \<Rightarrow> real \<Rightarrow> 'pg \<Rightarrow> out_page option" where
  "expected_page env zoom quality grayscale page_w page_h pg =
     (case get_pixmap env pg zoom grayscale of
        Inl _ \<Rightarrow> None
      | Inr pix \<Rightarrow>
          (case fst (encode_pixmap_to_jpeg env pix quality \<lparr>trace = [], files = Map.empty\<rparr>) of
             Inl _ \<Rightarrow> None
           | Inr data \<Rightarrow>
               (case fit_rect_keep_aspect (width pix) (height pix) page_w page_h of
                  Inl _ \<Rightarrow> None
                | Inr rect \<Rightarrow>
                    (case insert_image env rect data of
                       Some _ \<Rightarrow> None
                     | None \<Rightarrow>
                         Some \<lparr>page_width = page_w, page_height = page_h,
                               images = [(rect, data)]\<rparr>))))"

text \<open>The pages expected of a whole source document, in the order of its pages.\<close>

definition expected_document ::
  "'pg env \<Rightarrow> 'pg document \<Rightarrow> int \<Rightarrow> int \<Rightarrow> bool \<Rightarrow> bool \<Rightarrow> out_page option list" where
  "expected_document env src dpi quality grayscale a4_portrait =
     map (expected_page env (of_int dpi / 72) quality grayscale
            (if a4_portrait then A4_WIDTH_PT else A4_HEIGHT_PT)
            (if a4_portrait then A4_HEIGHT_PT else A4_WIDTH_PT))
         (pages src)"

text \<open>
  The specification's derivation of the output path: the given text goes between the stem
  and the extension of the name, and the extension stays as it is.
\<close>

definition insert_before_extension :: "string \<Rightarrow> path \<Rightarrow> path" where
  "insert_before_extension sfx p = p\<lparr>name := path_stem p @ sfx @ path_suffix p\<rparr>"

text \<open>Events on a document handle or on the output file, as opposed to the per-page calls.\<close>

definition handle_event :: "event \<Rightarrow> bool" where
  "handle_event e = (case e of Opened _ \<Rightarrow> True | OpenFailed _ \<Rightarrow> True | Closed _ \<Rightarrow> True
                     | Save _ \<Rightarrow> True | _ \<Rightarrow> False)"

definition page_events :: "event list \<Rightarrow> bool" where
  "page_events evs = list_all (\<lambda>e. \<not> handle_event e) evs"

subsection \<open>Concrete runs\<close>

text \<open>
  A three-page, unencrypted document under three existing names, a working primary encoder
  and no Pillow; and variations of it: an encrypted document, a \<open>fitz.open()\<close> that raises,
  and a primary encoder that raises.
\<close>

definition init_state :: state where
  "init_state = \<lparr>trace = [], files = Map.empty\<rparr>"

definition example_path :: path where
  "example_path = \<lparr>parent = [''docs''], name = ''report.pdf''\<rparr>"

definition upper_path :: path where
  "upper_path = \<lparr>parent = [''docs''], name = ''A.PDF''\<rparr>"

definition notes_path :: path where
  "notes_path = \<lparr>parent = [''docs''], name = ''notes.txt''\<rparr>"

definition missing_path :: path where
  "missing_path = \<lparr>parent = [''docs''], name = ''missing.txt''\<rparr>"

definition example_out :: path where
  "example_out = \<lparr>parent = [''docs''], name = ''report (01).pdf''\<rparr>"

definition example_document :: "nat document" where
  "example_document = \<lparr>needs_pass = False, pages = [0, 1, 2]\<rparr>"

definition locked_document :: "nat document" where
  "locked_document = \<lparr>needs_pass = True, pages = [0]\<rparr>"

definition example_env :: "nat env" where
  "example_env =
     \<lparr>path_exists = (\<lambda>p. p = example_path \<or> p = upper_path \<or> p = notes_path),
      fitz_open = (\<lambda>p. Inr example_document),
      fitz_open_empty = None,
      get_pixmap = (\<lambda>pg zoom gray.
         Inr \<lparr>width = 400, height = 300 + int pg,
              colorspace_n = (if gray then 1 else 3), samples = []\<rparr>),
      get_image_data = (\<lambda>pix quality. Inr [255, 216, 255]),
      Image = None,
      insert_image = (\<lambda>r data. None),
      doc_save = (\<lambda>p d. None)\<rparr>"

definition locked_env :: "nat env" where
  "locked_env = example_env\<lparr>fitz_open := (\<lambda>p. Inr locked_document)\<rparr>"

definition no_dst_env :: "nat env" where
  "no_dst_env = example_env\<lparr>fitz_open_empty := Some (LibraryError ''cannot create document'')\<rparr>"

definition no_encoder_env :: "nat env" where
  "no_encoder_env =
     example_env\<lparr>get_image_data := (\<lambda>pix quality. Inl (LibraryError ''unsupported format''))\<rparr>"

definition example_pixmap :: pixmap where
  "example_pixmap = \<lparr>width = 400, height = 300, colorspace_n = 3, samples = []\<rparr>"


section \<open>Properties\<close>

subsection \<open>Geometry\<close>

lemma scale_pos:
  fixes pw ph :: real
  assumes "0 < iw" "0 < ih" "0 < pw" "0 < ph"
  shows "0 < min (pw / of_int iw) (ph / of_int ih)"
  using assms by simp

lemma scaled_w_le:
  fixes pw ph :: real
  assumes "0 < (iw::int)"
  shows "of_int iw * min (pw / of_int iw) (ph / of_int ih) \<le> pw"
proof -
  have "of_int iw * min (pw / of_int iw) (ph / of_int ih) \<le> of_int iw * (pw / of_int iw)"
    using assms by (intro mult_left_mono) simp_all
  also have "\<dots> = pw" using assms by simp
  finally show ?thesis .
qed

lemma scaled_h_le:
  fixes pw ph :: real
  assumes "0 < (ih::int)"
  shows "of_int ih * min (pw / of_int iw) (ph / of_int ih) \<le> ph"
proof -
  have "of_int ih * min (pw / of_int iw) (ph / of_int ih) \<le> of_int ih * (ph / of_int ih)"
    using assms by (intro mult_left_mono) simp_all
  also have "\<dots> = ph" using assms by simp
  finally show ?thesis .
qed

text \<open>
  Claim C1. For positive image dimensions and positive page dimensions,
  \<open>fit_rect_keep_aspect\<close> returns exactly the rectangle \<open>(x, y, x + width, y + height)\<close> with
  \<open>scale = min (page_w / img_w) (page_h / img_h)\<close>, \<open>width = img_w * scale\<close>,
  \<open>height = img_h * scale\<close>, \<open>x = (page_w - width) / 2\<close> and \<open>y = (page_h - height) / 2\<close>.
  The function reads and writes no state: its result is a function of its four arguments.
\<close>

theorem fit_rect_keep_aspect_formula:
  assumes "0 < img_w" "0 < img_h" "0 < page_w" "0 < page_h"
  shows "fit_rect_keep_aspect img_w img_h page_w page_h =
          (let scale = min (page_w / of_int img_w) (page_h / of_int img_h);
               wd = of_int img_w * scale;
               ht = of_int img_h * scale;
               x = (page_w - wd) / 2;
               y = (page_h - ht) / 2
           in Inr \<lparr>x0 = x, y0 = y, x1 = x + wd, y1 = y + ht\<rparr>)"
  using assms by (simp add: fit_rect_keep_aspect_def)

theorem fit_rect_keep_aspect_formula_witness:
  "0 < (400::int) \<and> 0 < (300::int) \<and> 0 < A4_WIDTH_PT \<and> 0 < A4_HEIGHT_PT \<and>
   fit_rect_keep_aspect 400 300 A4_WIDTH_PT A4_HEIGHT_PT =
     Inr \<lparr>x0 = 0, y0 = 1977165354330709 / 10000000000000,
          x1 = 1488188976377953 / 2500000000000, y1 = 805216535433071 / 1250000000000\<rparr>"
  using fit_rect_keep_aspect_formula [of 400 300 A4_WIDTH_PT A4_HEIGHT_PT]
  by (simp add: A4_WIDTH_PT_def A4_HEIGHT_PT_def Let_def)

text \<open>
  In exact arithmetic the rectangle lies within the page, for positive image and page
  dimensions.
\<close>

lemma fit_rect_within_page_exact:
  assumes "0 < img_w" "0 < img_h" "0 < page_w" "0 < page_h"
  shows "\<exists>r. fit_rect_keep_aspect img_w img_h page_w page_h = Inr r \<and>
             0 \<le> x0 r \<and> 0 \<le> y0 r \<and> x1 r \<le> page_w \<and> y1 r \<le> page_h"
  using assms scaled_w_le [of img_w page_w page_h img_h] scaled_h_le [of img_h page_w img_w page_h]
  by (simp add: fit_rect_keep_aspect_def Let_def field_simps)





















text \<open>
  Claim C8. For positive inputs the aspect ratio of the returned rectangle is the aspect
  ratio of the image: its width divided by its height equals \<open>img_w / img_h\<close>, exactly in
  exact arithmetic.
\<close>

theorem fit_rect_aspect_ratio:
  assumes "0 < img_w" "0 < img_h" "0 < page_w" "0 < page_h"
  shows "\<exists>r. fit_rect_keep_aspect img_w img_h page_w page_h = Inr r \<and>
             rect_width r / rect_height r = of_int img_w / of_int img_h"
proof -
  have "min (page_w / of_int img_w) (page_h / of_int img_h) \<noteq> 0"
    using scale_pos [OF assms] by linarith
  then show ?thesis
    using assms
    by (simp add: fit_rect_keep_aspect_def Let_def rect_width_def rect_height_def)
qed

theorem fit_rect_aspect_ratio_witness:
  "0 < (400::int) \<and> 0 < (300::int) \<and> 0 < A4_WIDTH_PT \<and> 0 < A4_HEIGHT_PT \<and>
   (\<exists>r. fit_rect_keep_aspect 400 300 A4_WIDTH_PT A4_HEIGHT_PT = Inr r \<and>
        rect_width r / rect_height r = of_int 400 / of_int 300)"
  using fit_rect_aspect_ratio [of 400 300 A4_WIDTH_PT A4_HEIGHT_PT]
  by (simp add: A4_WIDTH_PT_def A4_HEIGHT_PT_def)

text \<open>
  Claim C10. For positive inputs the returned rectangle fills the page on at least one
  axis, its width being the page width or its height the page height, exactly in exact
  arithmetic: the rectangle is centred on both axes, and on one axis it runs from \<open>0\<close> to
  the page bound.
\<close>

theorem fit_rect_fills_one_axis:
  assumes "0 < img_w" "0 < img_h" "0 < page_w" "0 < page_h"
  shows "\<exists>r. fit_rect_keep_aspect img_w img_h page_w page_h = Inr r \<and>
             (rect_width r = page_w \<or> rect_height r = page_h) \<and>
             x0 r + x1 r = page_w \<and> y0 r + y1 r = page_h \<and>
             (x0 r = 0 \<and> x1 r = page_w \<or> y0 r = 0 \<and> y1 r = page_h)"
  using assms
  by (simp add: fit_rect_keep_aspect_def Let_def rect_width_def rect_height_def min_def)

theorem fit_rect_fills_one_axis_witness:
  "0 < (400::int) \<and> 0 < (300::int) \<and> 0 < A4_WIDTH_PT \<and> 0 < A4_HEIGHT_PT \<and>
   (\<exists>r. fit_rect_keep_aspect 400 300 A4_WIDTH_PT A4_HEIGHT_PT = Inr r \<and>
        (rect_width r = A4_WIDTH_PT \<or> rect_height r = A4_HEIGHT_PT) \<and>
        x0 r + x1 r = A4_WIDTH_PT \<and> y0 r + y1 r = A4_HEIGHT_PT \<and>
        (x0 r = 0 \<and> x1 r = A4_WIDTH_PT \<or> y0 r = 0 \<and> y1 r = A4_HEIGHT_PT))"
  using fit_rect_fills_one_axis [of 400 300 A4_WIDTH_PT A4_HEIGHT_PT]
  by (simp add: A4_WIDTH_PT_def A4_HEIGHT_PT_def)

subsection \<open>Paths\<close>

lemma stem_suffix: "stem_of n @ suffix_of n = n"
  by (simp add: stem_of_def suffix_of_def Let_def)

lemma suffix_nonempty_name: "suffix_of n \<noteq> [] \<Longrightarrow> n \<noteq> []"
  by (auto simp: suffix_of_def Let_def)

lemma output_path_ok:
  assumes "lower (path_suffix p) = ''.pdf''"
  shows "output_path p = Inr (p\<lparr>name := path_stem p @ '' (01).pdf''\<rparr>)"
proof -
  have "path_suffix p \<noteq> []" using assms by (auto simp: lower_def)
  then have "name p \<noteq> []" by (simp add: path_suffix_def suffix_nonempty_name)
  then show ?thesis by (simp add: output_path_def with_name_def)
qed

lemma lower_suffix_example: "lower (path_suffix example_path) = ''.pdf''"
  by code_simp

lemma lower_suffix_upper: "lower (path_suffix upper_path) = ''.pdf''"
  by code_simp

lemma lower_suffix_notes: "lower (path_suffix notes_path) = ''.txt''"
  by code_simp

lemma stem_example: "path_stem example_path = ''report''"
  by code_simp

lemma stem_upper: "path_stem upper_path = ''A''"
  by code_simp

lemma suffix_upper: "path_suffix upper_path = ''.PDF''"
  by code_simp

lemma suffix_upper_out: "path_suffix \<lparr>parent = [''docs''], name = ''A (01).pdf''\<rparr> = ''.pdf''"
  by code_simp

subsection \<open>Image encoder\<close>

lemma encode_result_any_state:
  "fst (encode_pixmap_to_jpeg env pix quality s) = fst (encode_pixmap_to_jpeg env pix quality t)"
  by (simp add: encode_pixmap_to_jpeg_def Let_def split: sum.splits option.splits)

lemma page_events_simps [simp]:
  "page_events []"
  "page_events (e # evs) \<longleftrightarrow> \<not> handle_event e \<and> page_events evs"
  "page_events (evs @ evs') \<longleftrightarrow> page_events evs \<and> page_events evs'"
  by (simp_all add: page_events_def)

lemma encode_state:
  assumes "encode_pixmap_to_jpeg env pix quality s = (r, s')"
  shows "\<exists>evs. s' = s\<lparr>trace := trace s @ evs\<rparr> \<and> page_events evs"
proof -
  have a: "s' = s\<lparr>trace := trace s @ [GetImageData]\<rparr> \<or>
        s' = s\<lparr>trace := trace s @ [GetImageData, Frombytes]\<rparr> \<or>
        s' = s\<lparr>trace := trace s @ [GetImageData, Frombytes, ImageSave]\<rparr>"
    using assms
    by (auto simp: encode_pixmap_to_jpeg_def Let_def log_def split: sum.splits option.splits)
  have b: "page_events [GetImageData]" "page_events [GetImageData, Frombytes]"
    "page_events [GetImageData, Frombytes, ImageSave]"
    by (simp_all add: handle_event_def)
  from a b show ?thesis by blast
qed

text \<open>
  Claim C9. When the primary JPEG encoder raises and Pillow is not available,
  \<open>encode_pixmap_to_jpeg\<close> raises a \<open>RuntimeError\<close> whose message names Pillow, and the only
  library call it has made is the one to the primary encoder: the fallback encoding is not
  attempted.
\<close>

theorem missing_fallback_dependency:
  assumes "get_image_data env pix quality = Inl e" and "Image env = None"
  shows "\<exists>msg. encode_pixmap_to_jpeg env pix quality s =
                 (Inl (RuntimeError msg), s\<lparr>trace := trace s @ [GetImageData]\<rparr>) \<and>
               sublist ''Pillow'' msg"
proof -
  have "sublist ''Pillow''
     ''PyMuPDF get_image_data not available; install Pillow (`pip install Pillow`) for fallback.''"
    by code_simp
  then show ?thesis
    using assms by (simp add: encode_pixmap_to_jpeg_def log_def)
qed

theorem missing_fallback_dependency_witness:
  "get_image_data no_encoder_env example_pixmap 60 = Inl (LibraryError ''unsupported format'') \<and>
   Image no_encoder_env = None \<and>
   (\<exists>msg. encode_pixmap_to_jpeg no_encoder_env example_pixmap 60 init_state =
           (Inl (RuntimeError msg), \<lparr>trace = [GetImageData], files = Map.empty\<rparr>) \<and>
          sublist ''Pillow'' msg)"
  using missing_fallback_dependency [of no_encoder_env example_pixmap 60 "LibraryError ''unsupported format''" init_state]
  by (simp add: no_encoder_env_def example_env_def init_state_def)

subsection \<open>The loop over the pages\<close>

lemma loop_body_result:
  "fst (loop_body env src zoom quality grayscale page_w page_h i dst s) = Inr d \<longleftrightarrow>
     i < length (pages src) \<and>
     (\<exists>pg. expected_page env zoom quality grayscale page_w page_h (pages src ! i) = Some pg \<and>
           d = dst @ [pg])"
proof (cases "i < length (pages src)")
  case False
  then show ?thesis by (simp add: loop_body_def)
next
  case True
  have e: "fst (encode_pixmap_to_jpeg env pix quality (log (GetPixmap i) s)) =
           fst (encode_pixmap_to_jpeg env pix quality \<lparr>trace = [], files = Map.empty\<rparr>)" for pix
    by (rule encode_result_any_state)
  show ?thesis
    using True
    by (auto simp: loop_body_def expected_page_def e [symmetric]
          split: sum.splits option.splits prod.splits)
qed

lemma loop_body_state:
  assumes "loop_body env src zoom quality grayscale page_w page_h i dst s = (r, s')"
  shows "\<exists>evs. s' = s\<lparr>trace := trace s @ evs\<rparr> \<and> page_events evs"
proof (cases "i < length (pages src)")
  case False
  with assms have "s' = s\<lparr>trace := trace s @ []\<rparr>" by (simp add: loop_body_def)
  then show ?thesis using page_events_simps(1) by blast
next
  case True
  show ?thesis
  proof (cases "get_pixmap env (pages src ! i) zoom grayscale")
    case (Inl e)
    with assms True have "s' = s\<lparr>trace := trace s @ [GetPixmap i]\<rparr>"
      by (simp add: loop_body_def log_def)
    moreover have "page_events [GetPixmap i]" by (simp add: handle_event_def)
    ultimately show ?thesis by blast
  next
    case (Inr pix)
    obtain r1 s1 where enc: "encode_pixmap_to_jpeg env pix quality (log (GetPixmap i) s) = (r1, s1)"
      by (cases "encode_pixmap_to_jpeg env pix quality (log (GetPixmap i) s)")
    from encode_state [OF enc] obtain evs where
      s1: "s1 = s\<lparr>trace := trace s @ GetPixmap i # evs\<rparr>" and ev: "page_events evs"
      by (auto simp: log_def)
    have "s' = s1 \<or> s' = log NewPage s1 \<or> s' = log InsertImage (log NewPage s1)"
      using assms True Inr enc
      by (auto simp: loop_body_def split: sum.splits option.splits)
    then have "s' = s\<lparr>trace := trace s @ (GetPixmap i # evs)\<rparr> \<or>
               s' = s\<lparr>trace := trace s @ (GetPixmap i # evs @ [NewPage])\<rparr> \<or>
               s' = s\<lparr>trace := trace s @ (GetPixmap i # evs @ [NewPage, InsertImage])\<rparr>"
      by (auto simp: s1 log_def)
    moreover have "page_events (GetPixmap i # evs)" "page_events (GetPixmap i # evs @ [NewPage])"
      "page_events (GetPixmap i # evs @ [NewPage, InsertImage])"
      using ev by (simp_all add: handle_event_def)
    ultimately show ?thesis by blast
  qed
qed

lemma for_pages_state:
  "for_pages env src zoom quality grayscale page_w page_h idx dst s = (r, s') \<Longrightarrow>
     \<exists>evs. s' = s\<lparr>trace := trace s @ evs\<rparr> \<and> page_events evs"
proof (induction idx arbitrary: dst s)
  case Nil
  then have "s' = s\<lparr>trace := trace s @ []\<rparr>" by simp
  then show ?case using page_events_simps(1) by blast
next
  case (Cons i rest)
  obtain r1 s1 where body: "loop_body env src zoom quality grayscale page_w page_h i dst s = (r1, s1)"
    by (cases "loop_body env src zoom quality grayscale page_w page_h i dst s")
  from loop_body_state [OF body] obtain evs1 where
    s1: "s1 = s\<lparr>trace := trace s @ evs1\<rparr>" and ev1: "page_events evs1" by blast
  show ?case
  proof (cases r1)
    case (Inl e)
    with Cons.prems body have "s' = s1" by simp
    with s1 ev1 show ?thesis by blast
  next
    case (Inr dst1)
    with Cons.prems body
    have "for_pages env src zoom quality grayscale page_w page_h rest dst1 s1 = (r, s')" by simp
    from Cons.IH [OF this] obtain evs2 where
      "s' = s1\<lparr>trace := trace s1 @ evs2\<rparr>" and ev2: "page_events evs2" by blast
    then have "s' = s\<lparr>trace := trace s @ (evs1 @ evs2)\<rparr>" by (simp add: s1)
    moreover have "page_events (evs1 @ evs2)" using ev1 ev2 by simp
    ultimately show ?thesis by blast
  qed
qed

lemma for_pages_result:
  "fst (for_pages env src zoom quality grayscale page_w page_h idx dst s) = Inr d \<longleftrightarrow>
     list_all (\<lambda>i. i < length (pages src) \<and>
                 expected_page env zoom quality grayscale page_w page_h (pages src ! i) \<noteq> None) idx \<and>
     d = dst @ map (\<lambda>i. the (expected_page env zoom quality grayscale page_w page_h (pages src ! i))) idx"
proof (induction idx arbitrary: dst s)
  case Nil
  then show ?case by auto
next
  case (Cons i rest)
  obtain r1 s1 where body: "loop_body env src zoom quality grayscale page_w page_h i dst s = (r1, s1)"
    by (cases "loop_body env src zoom quality grayscale page_w page_h i dst s")
  show ?case
  proof (cases r1)
    case (Inl e)
    have "\<not> (i < length (pages src) \<and>
       expected_page env zoom quality grayscale page_w page_h (pages src ! i) \<noteq> None)"
    proof
      assume a: "i < length (pages src) \<and>
        expected_page env zoom quality grayscale page_w page_h (pages src ! i) \<noteq> None"
      then obtain pg where
        "expected_page env zoom quality grayscale page_w page_h (pages src ! i) = Some pg"
        by auto
      with a have "fst (loop_body env src zoom quality grayscale page_w page_h i dst s) =
                   Inr (dst @ [pg])"
        unfolding loop_body_result by simp
      with body Inl show False by simp
    qed
    then show ?thesis using body Inl by auto
  next
    case (Inr dst1)
    then have "fst (loop_body env src zoom quality grayscale page_w page_h i dst s) = Inr dst1"
      using body by simp
    then obtain pg where "i < length (pages src)"
      "expected_page env zoom quality grayscale page_w page_h (pages src ! i) = Some pg"
      "dst1 = dst @ [pg]"
      unfolding loop_body_result by auto
    then show ?thesis using body Inr Cons.IH [of dst1 s1] by auto
  qed
qed

lemma index_map:
  "map (\<lambda>i. f (xs ! i)) [0 ..< length xs] = map f xs"
proof -
  have "map (\<lambda>i. f (xs ! i)) [0 ..< length xs] = map f (map ((!) xs) [0 ..< length xs])"
    by simp
  then show ?thesis by (simp only: map_nth)
qed

lemma index_all:
  "list_all (\<lambda>i. i < length xs \<and> P (xs ! i)) [0 ..< length xs] \<longleftrightarrow> list_all P xs"
  by (auto simp: list_all_length)

lemma map_Some_the: "list_all (\<lambda>x. x \<noteq> None) xs \<Longrightarrow> map Some (map the xs) = xs"
  by (induction xs) auto

subsection \<open>The \<open>try\<close> suite and the whole call\<close>

lemma try_suite_result:
  assumes "\<not> needs_pass src"
  shows "fst (try_suite env src out dpi quality grayscale a4_portrait s) = Inr r \<longleftrightarrow>
           r = out \<and>
           list_all (\<lambda>pg. pg \<noteq> None) (expected_document env src dpi quality grayscale a4_portrait) \<and>
           doc_save env out (map the (expected_document env src dpi quality grayscale a4_portrait)) = None"
proof -
  let ?pw = "if a4_portrait then A4_WIDTH_PT else A4_HEIGHT_PT"
  let ?ph = "if a4_portrait then A4_HEIGHT_PT else A4_WIDTH_PT"
  let ?f = "expected_page env (of_int dpi / 72) quality grayscale ?pw ?ph"
  let ?loop = "for_pages env src (of_int dpi / 72) quality grayscale ?pw ?ph
                 [0 ..< length (pages src)] [] s"
  have loop: "fst ?loop = Inr d \<longleftrightarrow> list_all (\<lambda>pg. ?f pg \<noteq> None) (pages src) \<and>
                d = map (\<lambda>pg. the (?f pg)) (pages src)" for d
    unfolding for_pages_result index_all [of "pages src" "\<lambda>pg. ?f pg \<noteq> None"]
      index_map [of "\<lambda>pg. the (?f pg)" "pages src"] by simp
  have doc: "list_all (\<lambda>pg. pg \<noteq> None) (expected_document env src dpi quality grayscale a4_portrait)
               = list_all (\<lambda>pg. ?f pg \<noteq> None) (pages src)"
    "map the (expected_document env src dpi quality grayscale a4_portrait) =
       map (\<lambda>pg. the (?f pg)) (pages src)"
    by (simp_all add: expected_document_def list_all_iff)
  let ?A = "list_all (\<lambda>pg. pg \<noteq> None) (expected_document env src dpi quality grayscale a4_portrait)"
  let ?d = "map the (expected_document env src dpi quality grayscale a4_portrait)"
  let ?T = "try_suite env src out dpi quality grayscale a4_portrait s"
  have ts: "?T =
      (case ?loop of
         (Inl e, s1) \<Rightarrow> (Inl e, s1)
       | (Inr dst, s1) \<Rightarrow>
           (case doc_save env out dst of
              Some e \<Rightarrow> (Inl e, log (Save out) s1)
            | None \<Rightarrow> (Inr out, (log (Save out) s1)\<lparr>files := (files s1)(out \<mapsto> dst)\<rparr>)))"
    using assms by (simp add: try_suite_def Let_def)
  obtain r1 s1 where l: "?loop = (r1, s1)" by (cases ?loop)
  show ?thesis
  proof (cases r1)
    case (Inl e)
    with l have "fst ?loop \<noteq> Inr d" for d by simp
    then have "\<not> list_all (\<lambda>pg. ?f pg \<noteq> None) (pages src)" using loop by blast
    then have rhs: "\<not> ?A" unfolding doc(1) .
    have lhs: "fst ?T = Inl e" by (simp add: ts l Inl)
    show ?thesis
    proof
      assume "fst ?T = Inr r"
      with lhs show "r = out \<and> ?A \<and> doc_save env out ?d = None" by simp
    next
      assume "r = out \<and> ?A \<and> doc_save env out ?d = None"
      with rhs show "fst ?T = Inr r" by blast
    qed
  next
    case (Inr d)
    with l have "fst ?loop = Inr d" by simp
    then have "list_all (\<lambda>pg. ?f pg \<noteq> None) (pages src)"
      "d = map (\<lambda>pg. the (?f pg)) (pages src)" using loop by blast+
    then have A: "?A" and d: "?d = d" unfolding doc by simp_all
    have lhs: "fst ?T = (case doc_save env out d of Some e \<Rightarrow> Inl e | None \<Rightarrow> Inr out)"
      by (simp add: ts l Inr split: option.splits)
    show ?thesis
      unfolding lhs d using A by (cases "doc_save env out d") auto
  qed
qed

lemma try_suite_files:
  assumes "\<not> needs_pass src"
    and "fst (try_suite env src out dpi quality grayscale a4_portrait s) = Inr r"
  shows "files (snd (try_suite env src out dpi quality grayscale a4_portrait s)) =
           (files s)(out \<mapsto> map the (expected_document env src dpi quality grayscale a4_portrait))"
proof -
  let ?pw = "if a4_portrait then A4_WIDTH_PT else A4_HEIGHT_PT"
  let ?ph = "if a4_portrait then A4_HEIGHT_PT else A4_WIDTH_PT"
  let ?f = "expected_page env (of_int dpi / 72) quality grayscale ?pw ?ph"
  let ?loop = "for_pages env src (of_int dpi / 72) quality grayscale ?pw ?ph
                 [0 ..< length (pages src)] [] s"
  let ?T = "try_suite env src out dpi quality grayscale a4_portrait s"
  have ts: "?T =
      (case ?loop of
         (Inl e, s1) \<Rightarrow> (Inl e, s1)
       | (Inr dst, s1) \<Rightarrow>
           (case doc_save env out dst of
              Some e \<Rightarrow> (Inl e, log (Save out) s1)
            | None \<Rightarrow> (Inr out, (log (Save out) s1)\<lparr>files := (files s1)(out \<mapsto> dst)\<rparr>)))"
    using assms(1) by (simp add: try_suite_def Let_def)
  obtain r1 s1 where l: "?loop = (r1, s1)" by (cases ?loop)
  from for_pages_state [OF l] have f1: "files s1 = files s" by auto
  from assms(2) obtain d where r1: "r1 = Inr d" and sv: "doc_save env out d = None"
    by (cases r1; cases "doc_save env out (projr r1)") (auto simp: ts l)
  have "fst ?loop = Inr d" by (simp add: l r1)
  then have "d = map (\<lambda>i. the (?f (pages src ! i))) [0 ..< length (pages src)]"
    unfolding for_pages_result by simp
  then have d: "d = map the (expected_document env src dpi quality grayscale a4_portrait)"
    by (simp add: index_map [of "\<lambda>pg. the (?f pg)" "pages src"] expected_document_def)
  have "files (snd ?T) = (files s1)(out \<mapsto> d)" by (simp add: ts l r1 sv)
  then show ?thesis by (simp only: f1 d)
qed

lemma try_suite_state:
  assumes "try_suite env src out dpi quality grayscale a4_portrait s = (r, s')"
  shows "\<exists>evs. trace s' = trace s @ evs \<and> Closed Src \<notin> set evs \<and> Closed Dst \<notin> set evs"
proof (cases "needs_pass src")
  case True
  with assms have "trace s' = trace s @ []" by (simp add: try_suite_def)
  then show ?thesis by force
next
  case False
  let ?loop = "for_pages env src (of_int dpi / 72) quality grayscale
                 (if a4_portrait then A4_WIDTH_PT else A4_HEIGHT_PT)
                 (if a4_portrait then A4_HEIGHT_PT else A4_WIDTH_PT)
                 [0 ..< length (pages src)] [] s"
  obtain r1 s1 where l: "?loop = (r1, s1)" by (cases ?loop)
  from for_pages_state [OF l] obtain evs where
    s1: "s1 = s\<lparr>trace := trace s @ evs\<rparr>" and ev: "page_events evs" by blast
  have no: "Closed h \<notin> set evs" for h
    using ev by (auto simp: page_events_def list_all_iff handle_event_def)
  have "trace s' = trace s1 \<or> trace s' = trace s1 @ [Save out]"
    using assms False l
    by (auto simp: try_suite_def Let_def log_def split: sum.splits option.splits)
  then have "trace s' = trace s @ evs \<or> trace s' = trace s @ (evs @ [Save out])"
    by (simp add: s1)
  moreover have "Closed h \<notin> set (evs @ [Save out])" for h using no by simp
  ultimately show ?thesis using no by blast
qed

lemma try_suite_returns_out:
  "fst (try_suite env src out dpi quality grayscale a4_portrait s) = Inr r \<Longrightarrow> r = out"
  using try_suite_result [of src env out dpi quality grayscale a4_portrait s r]
  by (cases "needs_pass src") (simp_all add: try_suite_def)

lemma rasterize_opened:
  assumes "path_exists env p" and "lower (path_suffix p) = ''.pdf''"
    and "fitz_open env p = Inr src" and "fitz_open_empty env = None"
  shows "rasterize_pdf_to_images_pdf env p dpi quality grayscale a4_portrait s =
     (fst (try_suite env src (p\<lparr>name := path_stem p @ '' (01).pdf''\<rparr>) dpi quality grayscale
              a4_portrait (log (Opened Dst) (log (Opened Src) s))),
      log (Closed Dst) (log (Closed Src)
        (snd (try_suite env src (p\<lparr>name := path_stem p @ '' (01).pdf''\<rparr>) dpi quality grayscale
              a4_portrait (log (Opened Dst) (log (Opened Src) s))))))"
  using assms output_path_ok [OF assms(2)]
  by (simp add: rasterize_pdf_to_images_pdf_def split: prod.splits)

lemma rasterize_result:
  assumes "path_exists env p" and "lower (path_suffix p) = ''.pdf''"
    and "fitz_open env p = Inr src" and "\<not> needs_pass src" and "fitz_open_empty env = None"
  shows "fst (rasterize_pdf_to_images_pdf env p dpi quality grayscale a4_portrait s) = Inr r \<longleftrightarrow>
      r = p\<lparr>name := path_stem p @ '' (01).pdf''\<rparr> \<and>
      list_all (\<lambda>pg. pg \<noteq> None) (expected_document env src dpi quality grayscale a4_portrait) \<and>
      doc_save env (p\<lparr>name := path_stem p @ '' (01).pdf''\<rparr>)
        (map the (expected_document env src dpi quality grayscale a4_portrait)) = None"
  unfolding rasterize_opened [OF assms(1,2,3,5)]
  using try_suite_result [OF assms(4), of env "p\<lparr>name := path_stem p @ '' (01).pdf''\<rparr>" dpi quality
      grayscale a4_portrait "log (Opened Dst) (log (Opened Src) s)" r]
  by simp

lemma rasterize_returns_output_path:
  assumes "rasterize_pdf_to_images_pdf env p dpi quality grayscale a4_portrait s = (Inr r, s')"
  shows "output_path p = Inr r"
proof -
  from assms have ok: "path_exists env p" "lower (path_suffix p) = ''.pdf''"
    by (auto simp: rasterize_pdf_to_images_pdf_def split: if_splits)
  note o = output_path_ok [OF ok(2)]
  from assms ok o obtain src where src: "fitz_open env p = Inr src"
    by (cases "fitz_open env p") (auto simp: rasterize_pdf_to_images_pdf_def)
  from assms ok o src have e: "fitz_open_empty env = None"
    by (cases "fitz_open_empty env") (auto simp: rasterize_pdf_to_images_pdf_def)
  from assms have "fst (try_suite env src (p\<lparr>name := path_stem p @ '' (01).pdf''\<rparr>) dpi quality
      grayscale a4_portrait (log (Opened Dst) (log (Opened Src) s))) = Inr r"
    unfolding rasterize_opened [OF ok src e] by simp
  then show ?thesis using o try_suite_returns_out by metis
qed

lemma example_document_ok:
  "list_all (\<lambda>pg. pg \<noteq> None) (expected_document example_env example_document 144 60 False True)"
  by (simp add: expected_document_def expected_page_def example_env_def example_document_def
        encode_pixmap_to_jpeg_def fit_rect_keep_aspect_def Let_def)

text \<open>
  Claim C4. The call raises \<open>FileNotFoundError\<close> when the input path does not exist, and
  \<open>ValueError\<close> when it exists and its suffix, lower-cased, is not \<open>.pdf\<close>. In both cases
  the state is the one the call started in, so no document has been opened; and a missing
  path raises \<open>FileNotFoundError\<close> whatever its suffix, so the existence check comes first.
\<close>

theorem precondition_failures:
  "(\<not> path_exists env p \<longrightarrow>
      rasterize_pdf_to_images_pdf env p dpi quality grayscale a4_portrait s =
        (Inl (FileNotFoundError p), s)) \<and>
   (path_exists env p \<and> lower (path_suffix p) \<noteq> ''.pdf'' \<longrightarrow>
      rasterize_pdf_to_images_pdf env p dpi quality grayscale a4_portrait s =
        (Inl (ValueError ''Input must be a .pdf file''), s))"
  by (simp add: rasterize_pdf_to_images_pdf_def)

theorem precondition_failures_witness:
  "rasterize_pdf_to_images_pdf example_env missing_path 144 60 False True init_state =
     (Inl (FileNotFoundError missing_path), init_state) \<and>
   rasterize_pdf_to_images_pdf example_env notes_path 144 60 False True init_state =
     (Inl (ValueError ''Input must be a .pdf file''), init_state)"
proof -
  have a: "\<not> path_exists example_env missing_path"
    by (simp add: example_env_def missing_path_def example_path_def upper_path_def notes_path_def)
  have b: "path_exists example_env notes_path \<and> lower (path_suffix notes_path) \<noteq> ''.pdf''"
    by (simp add: example_env_def lower_suffix_notes)
  show ?thesis
    using a b precondition_failures [of example_env missing_path 144 60 False True init_state]
      precondition_failures [of example_env notes_path 144 60 False True init_state]
    by blast
qed

text \<open>
  Claim C3. For an input that passes the two checks and opens as a document that needs a
  password, the call raises the \<open>RuntimeError\<close> of a password-protected input. The library
  calls of the run are the two opens and the two closes: no page is rendered, \<open>save\<close> is not
  called, and the saved files are those of the start.
\<close>

theorem encrypted_input_rejected:
  assumes "path_exists env p" and "lower (path_suffix p) = ''.pdf''"
    and "fitz_open env p = Inr src" and "needs_pass src" and "fitz_open_empty env = None"
  shows "rasterize_pdf_to_images_pdf env p dpi quality grayscale a4_portrait s =
           (Inl (RuntimeError ''The input PDF is password-protected.''),
            s\<lparr>trace := trace s @ [Opened Src, Opened Dst, Closed Src, Closed Dst]\<rparr>)"
  using assms output_path_ok [OF assms(2)]
  by (simp add: rasterize_pdf_to_images_pdf_def try_suite_def log_def)

theorem encrypted_input_rejected_witness:
  "path_exists locked_env example_path \<and> lower (path_suffix example_path) = ''.pdf'' \<and>
   fitz_open locked_env example_path = Inr locked_document \<and> needs_pass locked_document \<and>
   fitz_open_empty locked_env = None \<and>
   rasterize_pdf_to_images_pdf locked_env example_path 144 60 False True init_state =
     (Inl (RuntimeError ''The input PDF is password-protected.''),
      \<lparr>trace = [Opened Src, Opened Dst, Closed Src, Closed Dst], files = Map.empty\<rparr>)"
  using encrypted_input_rejected [of locked_env example_path locked_document 144 60 False True init_state]
  by (simp add: lower_suffix_example locked_env_def example_env_def locked_document_def
        init_state_def)

text \<open>
  Claim C2. For an input that exists, has the \<open>.pdf\<close> suffix and opens as a document that
  needs no password, the call returns exactly when every page is rendered, encoded and
  embedded and the save returns; and whenever it returns, the document saved at the output
  path has as many pages as the source, the page of index \<open>i\<close> being the one made of the
  source page of index \<open>i\<close>.
\<close>

theorem page_count_preserved:
  assumes "path_exists env p" and "lower (path_suffix p) = ''.pdf''"
    and "fitz_open env p = Inr src" and "\<not> needs_pass src" and "fitz_open_empty env = None"
  shows "\<exists>out. output_path p = Inr out \<and>
     ((\<exists>r. fst (rasterize_pdf_to_images_pdf env p dpi quality grayscale a4_portrait s) = Inr r) \<longleftrightarrow>
        list_all (\<lambda>pg. pg \<noteq> None) (expected_document env src dpi quality grayscale a4_portrait) \<and>
        doc_save env out (map the (expected_document env src dpi quality grayscale a4_portrait)) = None) \<and>
     (\<forall>r. fst (rasterize_pdf_to_images_pdf env p dpi quality grayscale a4_portrait s) = Inr r \<longrightarrow>
        r = out \<and>
        (\<exists>d. files (snd (rasterize_pdf_to_images_pdf env p dpi quality grayscale a4_portrait s)) out
                = Some d \<and>
             length d = length (pages src) \<and>
             map Some d = expected_document env src dpi quality grayscale a4_portrait))"
proof -
  let ?out = "p\<lparr>name := path_stem p @ '' (01).pdf''\<rparr>"
  let ?s2 = "log (Opened Dst) (log (Opened Src) s)"
  let ?T = "try_suite env src ?out dpi quality grayscale a4_portrait ?s2"
  let ?R = "rasterize_pdf_to_images_pdf env p dpi quality grayscale a4_portrait s"
  let ?E = "expected_document env src dpi quality grayscale a4_portrait"
  have R: "?R = (fst ?T, log (Closed Dst) (log (Closed Src) (snd ?T)))"
    by (rule rasterize_opened [OF assms(1,2,3,5)])
  have res: "fst ?R = Inr r \<longleftrightarrow>
      r = ?out \<and> list_all (\<lambda>pg. pg \<noteq> None) ?E \<and> doc_save env ?out (map the ?E) = None" for r
    by (rule rasterize_result [OF assms])
  have fl: "files (snd ?R) ?out = Some (map the ?E) \<and> length (map the ?E) = length (pages src) \<and>
            map Some (map the ?E) = ?E" if "fst ?R = Inr r" for r
  proof -
    from that have t: "fst ?T = Inr r" by (simp add: R)
    have "files (snd ?R) = files (snd ?T)" by (simp add: R log_def)
    then have "files (snd ?R) ?out = Some (map the ?E)"
      using try_suite_files [OF assms(4) t] by simp
    moreover have "length (map the ?E) = length (pages src)" by (simp add: expected_document_def)
    moreover have "map Some (map the ?E) = ?E"
    proof (rule map_Some_the)
      from that res [of r] show "list_all (\<lambda>pg. pg \<noteq> None) ?E" by blast
    qed
    ultimately show ?thesis by blast
  qed
  have "output_path p = Inr ?out" by (rule output_path_ok [OF assms(2)])
  moreover have "(\<exists>r. fst ?R = Inr r) \<longleftrightarrow>
      list_all (\<lambda>pg. pg \<noteq> None) ?E \<and> doc_save env ?out (map the ?E) = None"
    using res by blast
  moreover have "\<forall>r. fst ?R = Inr r \<longrightarrow> r = ?out \<and>
        (\<exists>d. files (snd ?R) ?out = Some d \<and> length d = length (pages src) \<and> map Some d = ?E)"
    using res fl by blast
  ultimately show ?thesis by blast
qed

theorem page_count_preserved_witness:
  "path_exists example_env example_path \<and> lower (path_suffix example_path) = ''.pdf'' \<and>
   fitz_open example_env example_path = Inr example_document \<and> \<not> needs_pass example_document \<and>
   fitz_open_empty example_env = None \<and>
   fst (rasterize_pdf_to_images_pdf example_env example_path 144 60 False True init_state) =
     Inr example_out \<and>
   (\<exists>d. files (snd (rasterize_pdf_to_images_pdf example_env example_path 144 60 False True
                       init_state)) example_out = Some d \<and>
        length d = 3)"
proof -
  have h: "path_exists example_env example_path" "lower (path_suffix example_path) = ''.pdf''"
    "fitz_open example_env example_path = Inr example_document" "\<not> needs_pass example_document"
    "fitz_open_empty example_env = None"
    by (simp_all add: lower_suffix_example example_env_def example_document_def)
  have "example_path\<lparr>name := ''report (01).pdf''\<rparr> = example_out"
    by (simp add: example_path_def example_out_def)
  then have o: "output_path example_path = Inr example_out"
    using output_path_ok [OF h(2)] by (simp add: stem_example)
  have sv: "doc_save example_env out d = None" for out d by (simp add: example_env_def)
  have n: "length (pages example_document) = 3" by (simp add: example_document_def)
  show ?thesis
    using page_count_preserved [OF h, of 144 60 False True init_state] h o sv n example_document_ok
    by auto
qed

text \<open>
  Once both documents are open, each is closed exactly once, after every other call of the
  run, whether the \<open>try\<close> suite returns or raises.
\<close>

lemma closed_once_after_both_opened:
  assumes "path_exists env p" and "lower (path_suffix p) = ''.pdf''"
    and "fitz_open env p = Inr src" and "fitz_open_empty env = None"
  shows "\<exists>evs. trace (snd (rasterize_pdf_to_images_pdf env p dpi quality grayscale a4_portrait s)) =
                 trace s @ [Opened Src, Opened Dst] @ evs @ [Closed Src, Closed Dst] \<and>
               Closed Src \<notin> set evs \<and> Closed Dst \<notin> set evs"
proof -
  let ?out = "p\<lparr>name := path_stem p @ '' (01).pdf''\<rparr>"
  let ?s2 = "log (Opened Dst) (log (Opened Src) s)"
  obtain r s1 where t: "try_suite env src ?out dpi quality grayscale a4_portrait ?s2 = (r, s1)"
    by (cases "try_suite env src ?out dpi quality grayscale a4_portrait ?s2")
  from try_suite_state [OF t] obtain evs where
    "trace s1 = trace ?s2 @ evs" and no: "Closed Src \<notin> set evs" "Closed Dst \<notin> set evs"
    by blast
  then have "trace s1 = trace s @ [Opened Src, Opened Dst] @ evs" by (simp add: log_def)
  moreover have "rasterize_pdf_to_images_pdf env p dpi quality grayscale a4_portrait s =
                   (r, log (Closed Dst) (log (Closed Src) s1))"
    using assms output_path_ok [OF assms(2)] t by (simp add: rasterize_pdf_to_images_pdf_def)
  ultimately have "trace (snd (rasterize_pdf_to_images_pdf env p dpi quality grayscale a4_portrait s)) =
                 trace s @ [Opened Src, Opened Dst] @ evs @ [Closed Src, Closed Dst]"
    by (simp add: log_def)
  with no show ?thesis by blast
qed

text \<open>
  Claim C5. On every exit path after the precondition checks, a failure to open the
  destination document included, the source and the destination document are each closed
  exactly once. The two opens stand before the \<open>try\<close> statement: when \<open>fitz.open()\<close> raises,
  the \<open>finally\<close> clause is not reached, and the source document, which is open, is not
  closed. The run below is that exit path.
\<close>

theorem source_left_open_when_destination_open_fails:
  "fst (rasterize_pdf_to_images_pdf no_dst_env example_path 144 60 False True init_state) =
     Inl (LibraryError ''cannot create document'') \<and>
   trace (snd (rasterize_pdf_to_images_pdf no_dst_env example_path 144 60 False True init_state)) =
     [Opened Src, OpenFailed Dst] \<and>
   count_list
     (trace (snd (rasterize_pdf_to_images_pdf no_dst_env example_path 144 60 False True init_state)))
     (Closed Src) = 0"
proof -
  have "rasterize_pdf_to_images_pdf no_dst_env example_path 144 60 False True init_state =
          (Inl (LibraryError ''cannot create document''),
           \<lparr>trace = [Opened Src, OpenFailed Dst], files = Map.empty\<rparr>)"
    using output_path_ok [OF lower_suffix_example]
    by (simp add: rasterize_pdf_to_images_pdf_def lower_suffix_example no_dst_env_def
          example_env_def init_state_def log_def)
  then show ?thesis by simp
qed

text \<open>
  Claim C6, as amended. For an input path accepted by the preconditions, the output path is
  in the directory of the input, and its name is the stem of the input's name, then
  \<open> (01)\<close>, then the input's extension in lower case, which is \<open>.pdf\<close>. It is the input's
  name with \<open> (01)\<close> inserted before an unchanged extension when that extension is
  written \<open>.pdf\<close>. A call that returns, returns this path.
\<close>

theorem output_path_lowercases_extension:
  assumes "path_exists env p" and "lower (path_suffix p) = ''.pdf''"
  shows "\<exists>out. output_path p = Inr out \<and>
           parent out = parent p \<and>
           name p = path_stem p @ path_suffix p \<and>
           name out = path_stem p @ '' (01)'' @ lower (path_suffix p) \<and>
           (path_suffix p = ''.pdf'' \<longrightarrow> out = insert_before_extension '' (01)'' p) \<and>
           (\<forall>r s'. rasterize_pdf_to_images_pdf env p dpi quality grayscale a4_portrait s = (Inr r, s')
              \<longrightarrow> r = out)"
proof -
  let ?out = "p\<lparr>name := path_stem p @ '' (01).pdf''\<rparr>"
  have o: "output_path p = Inr ?out" by (rule output_path_ok [OF assms(2)])
  have "name p = path_stem p @ path_suffix p"
    by (simp add: path_stem_def path_suffix_def stem_suffix)
  moreover have "name ?out = path_stem p @ '' (01)'' @ lower (path_suffix p)"
    by (simp add: assms(2))
  moreover have "path_suffix p = ''.pdf'' \<longrightarrow> ?out = insert_before_extension '' (01)'' p"
    by (simp add: insert_before_extension_def)
  moreover have "\<forall>r s'. rasterize_pdf_to_images_pdf env p dpi quality grayscale a4_portrait s = (Inr r, s')
              \<longrightarrow> r = ?out"
    using rasterize_returns_output_path o by fastforce
  ultimately show ?thesis using o by simp
qed

theorem output_path_lowercases_extension_witness:
  "path_exists example_env example_path \<and> lower (path_suffix example_path) = ''.pdf'' \<and>
   (\<exists>out. output_path example_path = Inr out \<and> parent out = [''docs''] \<and>
          name out = ''report (01).pdf'')"
proof -
  have h: "path_exists example_env example_path" "lower (path_suffix example_path) = ''.pdf''"
    by (simp_all add: lower_suffix_example example_env_def)
  from output_path_lowercases_extension [OF h, of 144 60 False True init_state]
  obtain out where "output_path example_path = Inr out" "parent out = parent example_path"
    "name out = path_stem example_path @ '' (01)'' @ lower (path_suffix example_path)"
    by blast
  then have "output_path example_path = Inr out \<and> parent out = [''docs''] \<and>
             name out = ''report (01).pdf''"
    by (simp add: stem_example lower_suffix_example) (simp add: example_path_def)
  with h show ?thesis by blast
qed

text \<open>
  The claim as first stated, with the extension left unchanged, fails on an accepted path
  whose extension is in upper case: the call returns a path whose extension is \<open>.pdf\<close>, not
  the \<open>.PDF\<close> of the input.
\<close>

theorem uppercase_extension_counterexample:
  "path_exists example_env upper_path \<and>
   lower (path_suffix upper_path) = ''.pdf'' \<and>
   fst (rasterize_pdf_to_images_pdf example_env upper_path 144 60 False True init_state) =
     Inr \<lparr>parent = [''docs''], name = ''A (01).pdf''\<rparr> \<and>
   insert_before_extension '' (01)'' upper_path = \<lparr>parent = [''docs''], name = ''A (01).PDF''\<rparr> \<and>
   fst (rasterize_pdf_to_images_pdf example_env upper_path 144 60 False True init_state) \<noteq>
     Inr (insert_before_extension '' (01)'' upper_path) \<and>
   path_suffix upper_path = ''.PDF'' \<and>
   path_suffix \<lparr>parent = [''docs''], name = ''A (01).pdf''\<rparr> = ''.pdf''"
proof -
  have h: "path_exists example_env upper_path" "lower (path_suffix upper_path) = ''.pdf''"
    "fitz_open example_env upper_path = Inr example_document" "\<not> needs_pass example_document"
    "fitz_open_empty example_env = None"
    by (simp_all add: lower_suffix_upper example_env_def example_document_def)
  have u: "upper_path\<lparr>name := ''A (01).pdf''\<rparr> = \<lparr>parent = [''docs''], name = ''A (01).pdf''\<rparr>"
    by (simp add: upper_path_def)
  have sv: "doc_save example_env out d = None" for out d by (simp add: example_env_def)
  have "fst (rasterize_pdf_to_images_pdf example_env upper_path 144 60 False True init_state) =
     Inr \<lparr>parent = [''docs''], name = ''A (01).pdf''\<rparr>"
    unfolding rasterize_result [OF h] using example_document_ok sv by (simp add: stem_upper u)
  moreover have "insert_before_extension '' (01)'' upper_path =
      \<lparr>parent = [''docs''], name = ''A (01).PDF''\<rparr>"
    by (simp add: insert_before_extension_def stem_upper suffix_upper) (simp add: upper_path_def)
  ultimately show ?thesis using h suffix_upper suffix_upper_out by simp
qed

end
